theory Spec2Isabelle
  imports Complex_Main "HOL-Library.AList"
begin

section \<open>Python values, errors and NumPy arrays\<close>

text \<open>
  The solver interface \<^verbatim>\<open>seisflows/solver/specfem2d.py\<close> is embedded function by
  function. Every \<^verbatim>\<open>raise\<close> of the source, and every exception of the Python and NumPy
  primitives it calls, is a value \<open>Inl e\<close> of the result.
\<close>

datatype error =
    Exception string
  | ValueError
  | IndexError
  | KeyError string
  | TypeError
  | IOError
  | OSError

definition bindE :: "error + 'a \<Rightarrow> ('a \<Rightarrow> error + 'b) \<Rightarrow> error + 'b" where
  "bindE m f = (case m of Inl e \<Rightarrow> Inl e | Inr v \<Rightarrow> f v)"

text \<open>
  A NumPy array of floats of dimension 0, 1 or 2. \<open>Arr2 ncol rows\<close> has shape
  \<open>(length rows, ncol)\<close>; every row has \<open>ncol\<close> entries. Floats are modelled as reals:
  rounding of the binary arithmetic is outside the model.
\<close>

datatype ndarray = Arr0 real | Arr1 "real list" | Arr2 nat "real list list"

fun shape :: "ndarray \<Rightarrow> nat list" where
  "shape (Arr0 v) = []"
| "shape (Arr1 xs) = [length xs]"
| "shape (Arr2 ncol rows) = [length rows, ncol]"

text \<open>\<^verbatim>\<open>M.shape[i]\<close>: indexing the shape tuple raises IndexError out of range.\<close>

definition shape_at :: "ndarray \<Rightarrow> nat \<Rightarrow> error + nat" where
  "shape_at M i = (if i < length (shape M) then Inr (shape M ! i) else Inl IndexError)"

text \<open>\<^verbatim>\<open>M[:, j]\<close>: a column of a two-dimensional array.\<close>

fun col :: "ndarray \<Rightarrow> nat \<Rightarrow> error + real list" where
  "col (Arr2 ncol rows) j =
     (if j < ncol then Inr (map (\<lambda>r. r ! j) rows) else Inl IndexError)"
| "col (Arr1 xs) j = Inl IndexError"
| "col (Arr0 v) j = Inl IndexError"

text \<open>\<^verbatim>\<open>np.zeros((nrow, ncol))\<close>.\<close>

definition np_zeros :: "nat \<Rightarrow> nat \<Rightarrow> ndarray" where
  "np_zeros nrow ncol = Arr2 ncol (replicate nrow (replicate ncol 0))"

text \<open>
  \<^verbatim>\<open>M[:, j] = src\<close>: the source is broadcast against the column, so a source of the
  column's length is stored entry by entry, a source of length 1 fills the column, and any
  other length raises ValueError. \<open>None\<close> is what \<open>loadbyproc\<close> returns for a key that is
  none of the five. NumPy would store \<^verbatim>\<open>nan\<close> for it, which the reals do not have, so
  the model raises there; \<open>save\<close> never asks for such a key (lemma
  \<open>save_source_not_None\<close>).
\<close>

fun set_col :: "ndarray \<Rightarrow> nat \<Rightarrow> real list option \<Rightarrow> error + ndarray" where
  "set_col (Arr2 ncol rows) j (Some src) =
     (if \<not> j < ncol then Inl IndexError
      else if length src = length rows
        then Inr (Arr2 ncol (map (\<lambda>(r, v). r[j := v]) (zip rows src)))
      else if length src = 1
        then Inr (Arr2 ncol (map (\<lambda>r. r[j := hd src]) rows))
      else Inl ValueError)"
| "set_col (Arr2 ncol rows) j None = Inl TypeError"
| "set_col (Arr1 xs) j src = Inl IndexError"
| "set_col (Arr0 v) j src = Inl IndexError"

text \<open>\<^verbatim>\<open>a.min()\<close> and \<^verbatim>\<open>a.max()\<close>: ValueError on an empty array.\<close>

definition np_min :: "real list \<Rightarrow> error + real" where
  "np_min a = (if a = [] then Inl ValueError else Inr (Min (set a)))"

definition np_max :: "real list \<Rightarrow> error + real" where
  "np_max a = (if a = [] then Inl ValueError else Inr (Max (set a)))"

text \<open>
  \<^verbatim>\<open>np.clip(a, a_min, a_max)\<close>, documented as
  \<^verbatim>\<open>np.minimum(a_max, np.maximum(a, a_min))\<close>. Releases that test an entry against
  \<^verbatim>\<open>a_min\<close> first and \<^verbatim>\<open>a_max\<close> second give the same array whenever
  \<^verbatim>\<open>a_min <= a_max\<close>, and whenever no entry is below \<^verbatim>\<open>a_min\<close>.
\<close>

definition np_clip :: "real list \<Rightarrow> real \<Rightarrow> real \<Rightarrow> real list" where
  "np_clip a a_min a_max = map (\<lambda>v. min a_max (max v a_min)) a"

text \<open>\<^verbatim>\<open>np.around\<close>: rounding to the nearest integer, a tie to the even one.\<close>

definition np_around :: "real \<Rightarrow> real" where
  "np_around r =
     (let f = \<lfloor>r\<rfloor>; d = r - of_int f
      in if d < 1 / 2 then of_int f
         else if 1 / 2 < d then of_int (f + 1)
         else if even f then of_int f else of_int (f + 1))"

text \<open>
  A NumPy float scalar that may have left the finite range: division by zero gives
  \<^verbatim>\<open>inf\<close> or \<^verbatim>\<open>nan\<close> with a warning, not an exception.
\<close>

datatype npfloat = Finite real | NonFinite

section \<open>Dictionaries and lists\<close>

text \<open>
  A model or kernel is a Python dict from a parameter name to a list holding one array.
  The dict is an association list, so that \<^verbatim>\<open>model.keys().pop()\<close> has an order to
  take the last key from. Python leaves that order to the hash table; the properties below
  are about dicts whose arrays all have the same length, where the key that is popped makes
  no difference.
\<close>

type_synonym model = "(string \<times> real list list) list"

definition dict_get :: "model \<Rightarrow> string \<Rightarrow> error + real list list" where
  "dict_get m key = (case map_of m key of None \<Rightarrow> Inl (KeyError key) | Some v \<Rightarrow> Inr v)"

definition dict_set :: "string \<Rightarrow> real list list \<Rightarrow> model \<Rightarrow> model" where
  "dict_set key v m = AList.update key v m"

definition dict_keys :: "model \<Rightarrow> string list" where
  "dict_keys m = map fst m"

definition list_pop :: "'a list \<Rightarrow> error + 'a" where
  "list_pop xs = (if xs = [] then Inl IndexError else Inr (last xs))"

definition item0 :: "'a list \<Rightarrow> error + 'a" where
  "item0 xs = (case xs of [] \<Rightarrow> Inl IndexError | x # _ \<Rightarrow> Inr x)"

section \<open>The world outside the interpreter\<close>

text \<open>
  A text file of numbers is the list of its rows, each row the list of the floats its
  whitespace-separated tokens denote. An invocation of an external program is logged
  with what it returned.
\<close>

record call =
  argv :: "string list"
  shell :: bool
  stdout :: "string option"

record world =
  files :: "string \<rightharpoonup> real list list"
  links :: "string \<rightharpoonup> string"
  pars :: "string \<rightharpoonup> string"
  procs :: "(call \<times> (error + int)) list"

text \<open>
  What the class reads from its surroundings: the properties of the base class and of the
  \<^verbatim>\<open>system\<close> module, the path registry, and the behaviour of what is not Python
  (the decimal rendering of a float, the external programs, the directory listing).
  \<open>fmt v\<close> is the float that the text \<^verbatim>\<open>'%16.10e' % v\<close> denotes when it is read back.
\<close>

record env =
  getpath :: string
  MODEL_INIT :: string
  getnode :: int
  fmt :: "real \<Rightarrow> real"
  meshsmooth :: "real list \<Rightarrow> real list \<Rightarrow> real list \<Rightarrow> real \<Rightarrow> npfloat \<Rightarrow> npfloat
                 \<Rightarrow> error + real list"
  unix_ls :: "string \<Rightarrow> world \<Rightarrow> string list"
  os_exec :: "call \<Rightarrow> world \<Rightarrow> (error + int) \<times> world"

text \<open>
  \<^verbatim>\<open>np.loadtxt(filename)\<close> with its default \<^verbatim>\<open>ndmin=0\<close>: blank lines are skipped,
  rows of different lengths raise ValueError, and axes of length one are squeezed away,
  so a file of one row or of one column is returned as a one-dimensional array.
\<close>

definition loadtxt_array :: "real list list \<Rightarrow> error + ndarray" where
  "loadtxt_array t =
     (case filter (\<lambda>r. r \<noteq> []) t of
        [] \<Rightarrow> Inr (Arr1 [])
      | r # rs \<Rightarrow>
          if \<not> list_all (\<lambda>r'. length r' = length r) rs then Inl ValueError
          else if rs = [] \<and> length r = 1 then Inr (Arr0 (hd r))
          else if rs = [] then Inr (Arr1 r)
          else if length r = 1 then Inr (Arr1 (map hd (r # rs)))
          else Inr (Arr2 (length r) (r # rs)))"

definition np_loadtxt :: "string \<Rightarrow> world \<Rightarrow> error + ndarray" where
  "np_loadtxt filename w =
     (case files w filename of None \<Rightarrow> Inl IOError | Some t \<Rightarrow> loadtxt_array t)"

text \<open>
  \<^verbatim>\<open>np.savetxt(filename, M, '%16.10e')\<close>: one line per row, each entry rendered by the
  format.
\<close>

fun np_savetxt :: "(real \<Rightarrow> real) \<Rightarrow> string \<Rightarrow> ndarray \<Rightarrow> world \<Rightarrow> (error + unit) \<times> world" where
  "np_savetxt f filename (Arr2 ncol rows) w =
     (Inr (), w\<lparr>files := (files w)(filename \<mapsto> map (map f) rows)\<rparr>)"
| "np_savetxt f filename (Arr1 xs) w =
     (Inr (), w\<lparr>files := (files w)(filename \<mapsto> map (\<lambda>v. [f v]) xs)\<rparr>)"
| "np_savetxt f filename (Arr0 v) w = (Inl ValueError, w)"

section \<open>Model input and output\<close>

text \<open>The column offset chosen by \<open>load\<close> and \<open>loadbyproc\<close> from the column count.\<close>

definition column_offset :: "nat \<Rightarrow> error + nat" where
  "column_offset ncol =
     (if ncol = 5 then Inr 0
      else if ncol = 6 then Inr 1
      else Inl (Exception ''Bad SPECFEM2D model or kernel.''))"

text \<open>The loop of \<open>load\<close> over the five keys, the offset advancing by one each time.\<close>

fun fill_model :: "ndarray \<Rightarrow> string list \<Rightarrow> nat \<Rightarrow> model \<Rightarrow> error + model" where
  "fill_model M [] ioff m = Inr m"
| "fill_model M (key # keys) ioff m =
     bindE (col M ioff) (\<lambda>c. fill_model M keys (ioff + 1) (dict_set key [c] m))"

definition load :: "string \<Rightarrow> world \<Rightarrow> error + model" where
  "load filename w =
     bindE (np_loadtxt filename w) (\<lambda>M.
     bindE (shape_at M 0) (\<lambda>nrow.
     bindE (shape_at M 1) (\<lambda>ncol.
     bindE (column_offset ncol) (\<lambda>ioff.
       fill_model M [''x'', ''z'', ''rho'', ''vp'', ''vs''] ioff []))))"

definition loadbyproc :: "string \<Rightarrow> string \<Rightarrow> world \<Rightarrow> error + real list option" where
  "loadbyproc filename key w =
     bindE (np_loadtxt filename w) (\<lambda>M.
     bindE (shape_at M 0) (\<lambda>nrow.
     bindE (shape_at M 1) (\<lambda>ncol.
     bindE (column_offset ncol) (\<lambda>ioff.
       if key = ''x'' then bindE (col M (ioff + 0)) (\<lambda>c. Inr (Some c))
       else if key = ''z'' then bindE (col M (ioff + 1)) (\<lambda>c. Inr (Some c))
       else if key = ''rho'' then bindE (col M (ioff + 2)) (\<lambda>c. Inr (Some c))
       else if key = ''vp'' then bindE (col M (ioff + 3)) (\<lambda>c. Inr (Some c))
       else if key = ''vs'' then bindE (col M (ioff + 4)) (\<lambda>c. Inr (Some c))
       else Inr None))))"

text \<open>The allocation of \<open>save\<close>: the offset of the first data column and the zero array.\<close>

definition save_alloc :: "model \<Rightarrow> string \<Rightarrow> error + nat \<times> ndarray" where
  "save_alloc m ftype =
     (if ftype = ''model'' then
        bindE (list_pop (dict_keys m)) (\<lambda>k.
        bindE (dict_get m k) (\<lambda>v.
        bindE (item0 v) (\<lambda>a. Inr (1, np_zeros (length a) 6))))
      else if ftype = ''kernel'' then
        bindE (list_pop (dict_keys m)) (\<lambda>k.
        bindE (dict_get m k) (\<lambda>v.
        bindE (item0 v) (\<lambda>a. Inr (0, np_zeros (length a) 5))))
      else Inl ValueError)"

text \<open>
  What \<open>save\<close> stores for a key: the array of the model when the model has the key, the
  column of the initial model file otherwise.
\<close>

definition save_source :: "env \<Rightarrow> world \<Rightarrow> model \<Rightarrow> string \<Rightarrow> error + real list option" where
  "save_source E w m key =
     (if key \<in> set (dict_keys m)
      then bindE (dict_get m key) (\<lambda>v. bindE (item0 v) (\<lambda>a. Inr (Some a)))
      else loadbyproc (MODEL_INIT E) key w)"

text \<open>The loop of \<open>save\<close> over \<^verbatim>\<open>enumerate(('x', 'z', 'rho', 'vp', 'vs'))\<close>.\<close>

fun save_fill :: "env \<Rightarrow> world \<Rightarrow> model \<Rightarrow> nat \<Rightarrow> (nat \<times> string) list \<Rightarrow> ndarray
                  \<Rightarrow> error + ndarray" where
  "save_fill E w m ioff [] M = Inr M"
| "save_fill E w m ioff ((icol, key) # rest) M =
     bindE (save_source E w m key) (\<lambda>src.
     bindE (set_col M (icol + ioff) src) (\<lambda>M'.
       save_fill E w m ioff rest M'))"

definition save :: "env \<Rightarrow> string \<Rightarrow> model \<Rightarrow> string \<Rightarrow> world \<Rightarrow> (error + unit) \<times> world" where
  "save E filename m ftype w =
     (case save_alloc m ftype of
        Inl e \<Rightarrow> (Inl e, w)
      | Inr (ioff, M0) \<Rightarrow>
          (case save_fill E w m ioff (enumerate 0 [''x'', ''z'', ''rho'', ''vp'', ''vs'']) M0 of
             Inl e \<Rightarrow> (Inl e, w)
           | Inr M \<Rightarrow> np_savetxt (fmt E) filename M w))"

section \<open>Helpers of the modules that this file imports\<close>

text \<open>
  Modelled from the spec: \<^verbatim>\<open>seisflows.seistools.shared.setpar\<close>, which is not part of
  the file. It patches one \<^verbatim>\<open>KEY = value\<close> line of the solver's parameter file; the
  parameter file is kept as the map from keys to value tokens.
\<close>

definition setpar :: "string \<Rightarrow> string \<Rightarrow> world \<Rightarrow> world" where
  "setpar key val w = w\<lparr>pars := (pars w)(key \<mapsto> val)\<rparr>"

text \<open>
  Modelled from the spec: the file primitives of \<^verbatim>\<open>seisflows.tools.unix\<close>, which is not
  part of the file, on a flat name space of paths. \<open>unix_rm\<close> removes whatever is at the
  path, \<open>unix_ln\<close> links the destination to the source, \<open>unix_mv\<close> renames and
  \<open>unix_cp\<close> copies a file; moving or copying a file that does not exist raises IOError.
\<close>

definition unix_rm :: "string \<Rightarrow> world \<Rightarrow> world" where
  "unix_rm path w = w\<lparr>files := (files w)(path := None), links := (links w)(path := None)\<rparr>"

definition unix_ln :: "string \<Rightarrow> string \<Rightarrow> world \<Rightarrow> world" where
  "unix_ln src dst w = w\<lparr>links := (links w)(dst \<mapsto> src)\<rparr>"

definition unix_mv :: "string \<Rightarrow> string \<Rightarrow> world \<Rightarrow> (error + unit) \<times> world" where
  "unix_mv src dst w =
     (case files w src of
        None \<Rightarrow> (Inl IOError, w)
      | Some t \<Rightarrow> (Inr (), w\<lparr>files := (files w)(src := None, dst \<mapsto> t)\<rparr>))"

definition unix_cp :: "string \<Rightarrow> string \<Rightarrow> world \<Rightarrow> (error + unit) \<times> world" where
  "unix_cp src dst w =
     (case files w src of
        None \<Rightarrow> (Inl IOError, w)
      | Some t \<Rightarrow> (Inr (), w\<lparr>files := (files w)(dst \<mapsto> t)\<rparr>))"

text \<open>\<^verbatim>\<open>os.path.join(a, b)\<close> of two components.\<close>

definition join :: "string \<Rightarrow> string \<Rightarrow> string" where
  "join a b =
     (if b \<noteq> [] \<and> hd b = CHR ''/'' then b
      else if a = [] \<or> last a = CHR ''/'' then a @ b
      else a @ ''/'' @ b)"

text \<open>\<^verbatim>\<open>str(n)\<close> of a length: the decimal digits.\<close>

definition digit :: "nat \<Rightarrow> char" where
  "digit d = ''0123456789'' ! d"

fun str :: "nat \<Rightarrow> string" where
  "str n = (if n < 10 then [digit n] else str (n div 10) @ [digit (n mod 10)])"

declare str.simps [simp del]

text \<open>
  \<^verbatim>\<open>open(name, 'w')\<close> creates or empties the file; the null device stays as it is.
\<close>

definition open_w :: "string \<Rightarrow> world \<Rightarrow> world" where
  "open_w name w = (if name = ''/dev/null'' then w else w\<lparr>files := (files w)(name \<mapsto> [])\<rparr>)"

text \<open>
  \<^verbatim>\<open>subprocess.call\<close>: the program runs to its end and its exit code is the value of
  the call; only a program that cannot be started raises. The call and what it returned
  are appended to the log.
\<close>

definition subprocess_call :: "env \<Rightarrow> call \<Rightarrow> world \<Rightarrow> (error + int) \<times> world" where
  "subprocess_call E c w =
     (case os_exec E c w of (r, w') \<Rightarrow> (r, w'\<lparr>procs := procs w @ [(c, r)]\<rparr>))"

section \<open>The solver interface\<close>

text \<open>The class attribute \<^verbatim>\<open>parameters\<close>: the empty list, extended by \<^verbatim>\<open>['vs']\<close>.\<close>

definition parameters :: "string list" where
  "parameters = [] @ [''vs'']"

text \<open>
  \<open>mpirun\<close> opens the output file, runs the script through the shell and drops the value
  of \<^verbatim>\<open>subprocess.call\<close>: the method returns \<^verbatim>\<open>None\<close>.
\<close>

definition mpirun :: "env \<Rightarrow> string \<Rightarrow> string \<Rightarrow> world \<Rightarrow> (error + unit) \<times> world" where
  "mpirun E script output w =
     (case subprocess_call E \<lparr>argv = [script], shell = True, stdout = Some output\<rparr>
             (open_w output w) of
        (Inl e, w') \<Rightarrow> (Inl e, w')
      | (Inr rc, w') \<Rightarrow> (Inr (), w'))"

definition forward :: "env \<Rightarrow> world \<Rightarrow> (error + unit) \<times> world" where
  "forward E w =
     (let w1 = setpar ''SIMULATION_TYPE'' ''1'' w;
          w2 = setpar ''SAVE_FORWARD'' ''.true.'' w1
      in case mpirun E ''bin/xmeshfem2D'' ''/dev/null'' w2 of
           (Inl e, w3) \<Rightarrow> (Inl e, w3)
         | (Inr u, w3) \<Rightarrow> mpirun E ''bin/xspecfem2D'' ''/dev/null'' w3)"

definition adjoint :: "env \<Rightarrow> world \<Rightarrow> (error + unit) \<times> world" where
  "adjoint E w =
     (let w1 = setpar ''SIMULATION_TYPE'' ''3'' w;
          w2 = setpar ''SAVE_FORWARD'' ''.false.'' w1;
          w3 = unix_rm ''SEM'' w2;
          w4 = unix_ln ''traces/adj'' ''SEM'' w3
      in case mpirun E ''bin/xmeshfem2D'' ''/dev/null'' w4 of
           (Inl e, w5) \<Rightarrow> (Inl e, w5)
         | (Inr u, w5) \<Rightarrow> mpirun E ''bin/xspecfem2D'' ''/dev/null'' w5)"

definition combine :: "env \<Rightarrow> string \<Rightarrow> world \<Rightarrow> (error + unit) \<times> world" where
  "combine E path w =
     (case subprocess_call E
             \<lparr>argv = [getpath E @ ''/'' @ ''bin/xsmooth_sem'']
                      @ [str (length (unix_ls E path w))]
                      @ [path],
              shell = False, stdout = None\<rparr> w of
        (Inl e, w') \<Rightarrow> (Inl e, w')
      | (Inr rc, w') \<Rightarrow> (Inr (), w'))"

text \<open>Float division, square root and rounding as NumPy does them on scalars.\<close>

definition fdiv :: "real \<Rightarrow> real \<Rightarrow> npfloat" where
  "fdiv a b = (if b = 0 then NonFinite else Finite (a / b))"

fun fsqrt :: "npfloat \<Rightarrow> npfloat" where
  "fsqrt (Finite r) = (if r < 0 then NonFinite else Finite (sqrt r))"
| "fsqrt NonFinite = NonFinite"

fun faround :: "npfloat \<Rightarrow> npfloat" where
  "faround (Finite r) = Finite (np_around r)"
| "faround NonFinite = NonFinite"

text \<open>
  The loop of \<open>smooth\<close> over the tracked parameters. The argument \<^verbatim>\<open>span\<close> of the
  source is written \<open>span'\<close>.
\<close>

fun smooth_fields :: "env \<Rightarrow> real list \<Rightarrow> real list \<Rightarrow> real \<Rightarrow> npfloat \<Rightarrow> npfloat
                      \<Rightarrow> string list \<Rightarrow> model \<Rightarrow> error + model" where
  "smooth_fields E x z span' nx nz [] parts = Inr parts"
| "smooth_fields E x z span' nx nz (key # keys) parts =
     bindE (dict_get parts key) (\<lambda>v.
     bindE (item0 v) (\<lambda>a.
     bindE (meshsmooth E x z a span' nx nz) (\<lambda>s.
       smooth_fields E x z span' nx nz keys (dict_set key [s] parts))))"

text \<open>The grid set-up and the smoothing loop of \<open>smooth\<close>, which touch no file.\<close>

definition smooth_parts :: "env \<Rightarrow> real \<Rightarrow> model \<Rightarrow> error + model" where
  "smooth_parts E span' parts =
     bindE (bindE (dict_get parts ''x'') item0) (\<lambda>x.
     bindE (bindE (dict_get parts ''z'') item0) (\<lambda>z.
     bindE (np_max x) (\<lambda>xmax. bindE (np_min x) (\<lambda>xmin.
     bindE (np_max z) (\<lambda>zmax. bindE (np_min z) (\<lambda>zmin.
       let lx = xmax - xmin;
           lz = zmax - zmin;
           nn = length x;
           nx = faround (fsqrt (fdiv (real nn * lx) lz));
           nz = faround (fsqrt (fdiv (real nn * lx) lz))
       in smooth_fields E x z span' nx nz parameters parts))))))"

text \<open>
  \<open>smooth\<close> returns the loaded dict when the span is zero and \<^verbatim>\<open>None\<close> after it has
  written; \<open>save\<close> is called without a type, so with its default \<^verbatim>\<open>'model'\<close>.
\<close>

definition smooth :: "env \<Rightarrow> string \<Rightarrow> string \<Rightarrow> real \<Rightarrow> world
                      \<Rightarrow> (error + model option) \<times> world" where
  "smooth E path tag span' w =
     (case load (path @ ''/'' @ tag) w of
        Inl e \<Rightarrow> (Inl e, w)
      | Inr parts \<Rightarrow>
          if span' = 0 then (Inr (Some parts), w)
          else
            (case smooth_parts E span' parts of
               Inl e \<Rightarrow> (Inl e, w)
             | Inr parts' \<Rightarrow>
                 (case unix_mv (path @ ''/'' @ tag) (path @ ''/'' @ ''_nosmooth'') w of
                    (Inl e, w1) \<Rightarrow> (Inl e, w1)
                  | (Inr u, w1) \<Rightarrow>
                      (case save E (path @ ''/'' @ tag) parts' ''model'' w1 of
                         (Inl e, w2) \<Rightarrow> (Inl e, w2)
                       | (Inr u', w2) \<Rightarrow> (Inr None, w2)))))"

text \<open>
  The loop of \<open>clip\<close> over the tracked parameters; \<^verbatim>\<open>np.clip\<close> writes into the array
  that the dict holds.
\<close>

fun clip_fields :: "real \<Rightarrow> string list \<Rightarrow> model \<Rightarrow> error + model" where
  "clip_fields thresh [] parts = Inr parts"
| "clip_fields thresh (key # keys) parts =
     bindE (dict_get parts key) (\<lambda>v.
     bindE (item0 v) (\<lambda>a.
     bindE (np_min a) (\<lambda>minval.
     bindE (np_max a) (\<lambda>maxval.
       clip_fields thresh keys
         (dict_set key (np_clip a (thresh * minval) (thresh * maxval) # tl v) parts)))))"

definition clip :: "env \<Rightarrow> string \<Rightarrow> string \<Rightarrow> real \<Rightarrow> world
                    \<Rightarrow> (error + model option) \<times> world" where
  "clip E path tag thresh w =
     (case load (path @ ''/'' @ tag) w of
        Inl e \<Rightarrow> (Inl e, w)
      | Inr parts \<Rightarrow>
          if 1 \<le> thresh then (Inr (Some parts), w)
          else
            (case clip_fields thresh parameters parts of
               Inl e \<Rightarrow> (Inl e, w)
             | Inr parts' \<Rightarrow>
                 (case unix_mv (path @ ''/'' @ tag) (path @ ''/'' @ ''_noclip'') w of
                    (Inl e, w1) \<Rightarrow> (Inl e, w1)
                  | (Inr u, w1) \<Rightarrow>
                      (case save E (path @ ''/'' @ tag) parts' ''model'' w1 of
                         (Inl e, w2) \<Rightarrow> (Inl e, w2)
                       | (Inr u', w2) \<Rightarrow> (Inr None, w2)))))"

definition export_model :: "env \<Rightarrow> string \<Rightarrow> world \<Rightarrow> (error + unit) \<times> world" where
  "export_model E path w =
     (if getnode E = 0
      then let src = join (getpath E) ''DATA/model_velocity.dat_input'';
               dst = path
           in unix_cp src dst w
      else (Inr (), w))"

section \<open>Notions used in the statements\<close>

text \<open>The dict that \<open>load\<close> builds from the rows of a table whose first data column is \<open>ioff\<close>.\<close>

definition fields_of :: "real list list \<Rightarrow> nat \<Rightarrow> model" where
  "fields_of rows ioff =
     [(''x'', [map (\<lambda>r. r ! ioff) rows]),
      (''z'', [map (\<lambda>r. r ! (ioff + 1)) rows]),
      (''rho'', [map (\<lambda>r. r ! (ioff + 2)) rows]),
      (''vp'', [map (\<lambda>r. r ! (ioff + 3)) rows]),
      (''vs'', [map (\<lambda>r. r ! (ioff + 4)) rows])]"

text \<open>A column of a text table, and an array of \<open>n\<close> rows of \<open>nc\<close> entries each.\<close>

definition column :: "real list list \<Rightarrow> nat \<Rightarrow> real list" where
  "column t j = map (\<lambda>r. r ! j) t"

definition wf_arr :: "ndarray \<Rightarrow> nat \<Rightarrow> nat \<Rightarrow> bool" where
  "wf_arr M n nc = (\<exists>rows. M = Arr2 nc rows \<and> length rows = n \<and> list_all (\<lambda>r. length r = nc) rows)"

text \<open>A kernel file of four nodes, a model file of the same nodes, and surroundings to run in.\<close>

definition example_kernel :: "real list list" where
  "example_kernel =
     [[0, 0, 2600, 5800, -10],
      [4, 0, 2600, 5800, 10],
      [0, 1, 2700, 5900, 2],
      [4, 1, 2700, 5900, -3]]"

definition example_model :: "real list list" where
  "example_model =
     [[1, 0, 0, 2600, 5800, 3500],
      [2, 4, 0, 2600, 5800, 3500],
      [3, 0, 1, 2700, 5900, 3600],
      [4, 4, 1, 2700, 5900, 3600]]"

definition example_world :: world where
  "example_world =
     \<lparr>files = [''kernels/gradient'' \<mapsto> example_kernel,
               ''model_init'' \<mapsto> example_model,
               ''/scratch/000000/DATA/model_velocity.dat_input'' \<mapsto> example_model],
      links = Map.empty, pars = Map.empty, procs = []\<rparr>"

definition example_env :: env where
  "example_env =
     \<lparr>getpath = ''/scratch/000000'', MODEL_INIT = ''model_init'', getnode = 0,
      fmt = (\<lambda>v. v),
      meshsmooth = (\<lambda>x z v s nx nz. Inr (map (\<lambda>u. u / 2) v)),
      unix_ls = (\<lambda>p w. [''000000'', ''000001'', ''000002'']),
      os_exec = (\<lambda>c w. (Inr (if argv c = [''bin/xmeshfem2D''] then 1 else 0), w))\<rparr>"

text \<open>The two calls that \<open>forward\<close> and \<open>adjoint\<close> make through \<open>mpirun\<close>.\<close>

definition mesh_call :: call where
  "mesh_call = \<lparr>argv = [''bin/xmeshfem2D''], shell = True, stdout = Some ''/dev/null''\<rparr>"

definition solver_call :: call where
  "solver_call = \<lparr>argv = [''bin/xspecfem2D''], shell = True, stdout = Some ''/dev/null''\<rparr>"

text \<open>
  The grid resolution in the spec's words: round(sqrt(nodeCount * xExtent / zExtent)),
  in float arithmetic, where a zero z-extent leaves the finite range.
\<close>

definition grid_resolution :: "nat \<Rightarrow> real \<Rightarrow> real \<Rightarrow> npfloat" where
  "grid_resolution nodeCount xExtent zExtent =
     (if zExtent = 0 then NonFinite
      else Finite (np_around (sqrt (real nodeCount * xExtent / zExtent))))"

text \<open>The world after \<open>smooth\<close> or \<open>clip\<close> has archived the file \<open>t\<close> and written \<open>T\<close>.\<close>

definition rewritten :: "world \<Rightarrow> string \<Rightarrow> string \<Rightarrow> real list list \<Rightarrow> real list list \<Rightarrow> world" where
  "rewritten w p archive t T = w\<lparr>files := (files w)(p := None, archive \<mapsto> t, p \<mapsto> T)\<rparr>"

section \<open>Properties of the codec\<close>

lemma loadtxt_array_Arr2:
  "loadtxt_array t = Inr (Arr2 n rows) \<Longrightarrow>
     rows = filter (\<lambda>r. r \<noteq> []) t \<and> 2 \<le> length rows \<and> 2 \<le> n \<and> list_all (\<lambda>r. length r = n) rows"
proof -
  assume a: "loadtxt_array t = Inr (Arr2 n rows)"
  show ?thesis
  proof (cases "filter (\<lambda>r. r \<noteq> []) t")
    case Nil
    with a show ?thesis by (simp add: loadtxt_array_def)
  next
    case (Cons r rs)
    have "r \<in> set (filter (\<lambda>r. r \<noteq> []) t)" by (simp add: Cons)
    then have r: "r \<noteq> []" by simp
    from a Cons have eq: "rows = r # rs" "n = length r" "rs \<noteq> []" "length r \<noteq> 1"
      "list_all (\<lambda>r'. length r' = length r) rs"
      by (auto simp: loadtxt_array_def split: if_splits)
    from r eq(4) have "2 \<le> length r" by (cases r rule: list.exhaust; simp) (simp add: Suc_le_eq)
    moreover from eq(3) have "2 \<le> length (r # rs)" by (cases rs) auto
    ultimately show ?thesis using eq Cons by simp
  qed
qed

lemma load_Arr2:
  assumes "files w f = Some t" "loadtxt_array t = Inr (Arr2 n rows)"
  shows "load f w = (if n = 5 then Inr (fields_of rows 0) else if n = 6 then Inr (fields_of rows 1)
           else Inl (Exception ''Bad SPECFEM2D model or kernel.''))"
  using assms
  by (simp add: load_def np_loadtxt_def bindE_def shape_at_def column_offset_def fields_of_def dict_set_def eval_nat_numeral)

lemma load_Inr:
  assumes "load f w = Inr parts"
  shows "\<exists>t n rows. files w f = Some t \<and> loadtxt_array t = Inr (Arr2 n rows) \<and> (n = 5 \<or> n = 6)
            \<and> parts = fields_of rows (n - 5)"
proof -
  from assms obtain t where t: "files w f = Some t"
    by (auto simp: load_def np_loadtxt_def bindE_def split: option.splits)
  from assms t obtain M where M: "loadtxt_array t = Inr M"
    by (auto simp: load_def np_loadtxt_def bindE_def split: sum.splits)
  show ?thesis
  proof (cases M)
    case (Arr2 n rows)
    with load_Arr2[OF t, of n rows] M assms show ?thesis using t
      by (auto split: if_splits)
  qed (use assms t M in \<open>auto simp: load_def np_loadtxt_def bindE_def shape_at_def\<close>)
qed

lemma wf_arr_zeros: "wf_arr (np_zeros n nc) n nc"
  by (simp add: wf_arr_def np_zeros_def list_all_iff)

lemma set_col_ok:
  assumes "wf_arr M n nc" "j < nc" "length a = n"
  shows "\<exists>M'. set_col M j (Some a) = Inr M' \<and> wf_arr M' n nc \<and> col M' j = Inr a
           \<and> (\<forall>i. i \<noteq> j \<longrightarrow> col M' i = col M i)"
proof -
  from assms(1) obtain rows where M: "M = Arr2 nc rows" and len: "length rows = n"
    and rect: "list_all (\<lambda>r. length r = nc) rows"
    by (auto simp: wf_arr_def)
  let ?rows' = "map (\<lambda>(r, v). r[j := v]) (zip rows a)"
  have s: "set_col M j (Some a) = Inr (Arr2 nc ?rows')"
    using M len assms by simp
  have w: "wf_arr (Arr2 nc ?rows') n nc"
    using len assms(3) rect by (auto simp: wf_arr_def list_all_iff dest: set_zip_leftD)
  have rl: "\<And>i. i < n \<Longrightarrow> length (rows ! i) = nc"
    using rect len by (simp add: list_all_length)
  have c: "map (\<lambda>r. r ! j) ?rows' = a"
    using len assms(2,3) rl by (intro nth_equalityI) auto
  have o: "\<And>i. i \<noteq> j \<Longrightarrow> map (\<lambda>r. r ! i) ?rows' = map (\<lambda>r. r ! i) rows"
    using len assms(3) by (intro nth_equalityI) auto
  show ?thesis using s w c o M assms(2) by auto
qed

lemma save_fill_ok:
  assumes "wf_arr M n nc" "distinct (map fst ps)"
    and "\<forall>(i, k) \<in> set ps. i + ioff < nc \<and> (\<exists>a. save_source E w m k = Inr (Some a) \<and> length a = n)"
  shows "\<exists>M'. save_fill E w m ioff ps M = Inr M' \<and> wf_arr M' n nc
           \<and> (\<forall>(i, k) \<in> set ps. \<forall>a. save_source E w m k = Inr (Some a) \<longrightarrow> col M' (i + ioff) = Inr a)
           \<and> (\<forall>j. j \<notin> (\<lambda>p. fst p + ioff) ` set ps \<longrightarrow> col M' j = col M j)"
  using assms
proof (induction ps arbitrary: M)
  case Nil
  then show ?case by simp
next
  case (Cons p ps)
  obtain i k where p: "p = (i, k)" by (cases p)
  from Cons.prems(3) p obtain a where a: "save_source E w m k = Inr (Some a)" "length a = n"
    and i: "i + ioff < nc" by auto
  from set_col_ok[OF Cons.prems(1) i a(2)] obtain M1 where
    M1: "set_col M (i + ioff) (Some a) = Inr M1" "wf_arr M1 n nc" "col M1 (i + ioff) = Inr a"
      "\<And>j. j \<noteq> i + ioff \<Longrightarrow> col M1 j = col M j" by blast
  from Cons.prems(2) have d: "distinct (map fst ps)" and ni: "i \<notin> fst ` set ps"
    by (auto simp: p)
  from Cons.prems(3) have r: "\<forall>(i, k) \<in> set ps. i + ioff < nc \<and> (\<exists>a. save_source E w m k = Inr (Some a) \<and> length a = n)"
    by simp
  from Cons.IH[OF M1(2) d r] obtain M' where
    M': "save_fill E w m ioff ps M1 = Inr M'" "wf_arr M' n nc"
      "\<forall>(i, k) \<in> set ps. \<forall>a. save_source E w m k = Inr (Some a) \<longrightarrow> col M' (i + ioff) = Inr a"
      "\<forall>j. j \<notin> (\<lambda>p. fst p + ioff) ` set ps \<longrightarrow> col M' j = col M1 j" by blast
  have e: "save_fill E w m ioff (p # ps) M = Inr M'"
    by (simp add: p a M1(1) M'(1) bindE_def)
  have "i + ioff \<notin> (\<lambda>p. fst p + ioff) ` set ps" using ni by force
  then have ci: "col M' (i + ioff) = Inr a" using M'(4) M1(3) by simp
  have rest: "\<forall>j. j \<notin> (\<lambda>p. fst p + ioff) ` set (p # ps) \<longrightarrow> col M' j = col M j"
    using M'(4) M1(4) by (auto simp: p)
  show ?case using e M'(2,3) ci rest a(1) by (auto simp: p)
qed


lemma column_map: "list_all (\<lambda>r. j < length r) rows \<Longrightarrow> column (map (map f) rows) j = map f (column rows j)"
  by (simp add: column_def list_all_iff)

lemma save_alloc_ok:
  assumes "m \<noteq> []" "\<forall>k \<in> set (dict_keys m). \<exists>a r. map_of m k = Some (a # r) \<and> length a = n"
  shows "save_alloc m ''model'' = Inr (1, np_zeros n 6)"
    and "save_alloc m ''kernel'' = Inr (0, np_zeros n 5)"
proof -
  from assms(1) have k: "last (dict_keys m) \<in> set (dict_keys m)" "dict_keys m \<noteq> []"
    using last_in_set[of "map fst m"] by (simp_all add: dict_keys_def)
  with assms(2) obtain a r where "map_of m (last (dict_keys m)) = Some (a # r)" "length a = n"
    by blast
  with k(2) show "save_alloc m ''model'' = Inr (1, np_zeros n 6)"
    and "save_alloc m ''kernel'' = Inr (0, np_zeros n 5)"
    by (simp_all add: save_alloc_def list_pop_def dict_get_def item0_def bindE_def)
qed

lemma save_ok:
  assumes alloc: "save_alloc m ftype = Inr (ioff, np_zeros n nc)" and nc: "ioff + 5 \<le> nc"
    and srcs: "\<forall>k \<in> set [''x'', ''z'', ''rho'', ''vp'', ''vs'']. \<exists>a. save_source E w m k = Inr (Some a) \<and> length a = n"
  shows "\<exists>T. save E f m ftype w = (Inr (), w\<lparr>files := (files w)(f \<mapsto> T)\<rparr>)
           \<and> length T = n \<and> list_all (\<lambda>r. length r = nc) T
           \<and> (\<forall>i < 5. \<forall>a. save_source E w m ([''x'', ''z'', ''rho'', ''vp'', ''vs''] ! i) = Inr (Some a)
                  \<longrightarrow> column T (i + ioff) = map (fmt E) a)
           \<and> (\<forall>j < ioff. column T j = replicate n (fmt E 0))"
proof -
  let ?ps = "enumerate 0 [''x'', ''z'', ''rho'', ''vp'', ''vs'']"
  have ps: "?ps = [(0, ''x''), (1, ''z''), (2, ''rho''), (3, ''vp''), (4, ''vs'')]"
    by (simp add: enumerate_eq_zip upt_rec)
  have d: "distinct (map fst ?ps)" by (simp add: ps)
  have h: "\<forall>(i, k) \<in> set ?ps. i + ioff < nc \<and> (\<exists>a. save_source E w m k = Inr (Some a) \<and> length a = n)"
    using srcs nc unfolding ps by simp
  from save_fill_ok[OF wf_arr_zeros d h] obtain M' where
    M': "save_fill E w m ioff ?ps (np_zeros n nc) = Inr M'" "wf_arr M' n nc"
      "\<forall>(i, k) \<in> set ?ps. \<forall>a. save_source E w m k = Inr (Some a) \<longrightarrow> col M' (i + ioff) = Inr a"
      "\<forall>j. j \<notin> (\<lambda>p. fst p + ioff) ` set ?ps \<longrightarrow> col M' j = col (np_zeros n nc) j" by blast
  from M'(2) obtain rows where rows: "M' = Arr2 nc rows" "length rows = n"
    "list_all (\<lambda>r. length r = nc) rows" by (auto simp: wf_arr_def)
  let ?T = "map (map (fmt E)) rows"
  have s: "save E f m ftype w = (Inr (), w\<lparr>files := (files w)(f \<mapsto> ?T)\<rparr>)"
    by (simp only: save_def alloc sum.case prod.case M'(1) rows(1) np_savetxt.simps)
  have l: "length ?T = n" "list_all (\<lambda>r. length r = nc) ?T"
    using rows(2,3) by (simp_all add: list_all_iff)
  have cm: "\<And>j. j < nc \<Longrightarrow> column ?T j = map (fmt E) (column rows j)"
    using rows(3) by (intro column_map) (simp add: list_all_iff)
  have cr: "\<And>j a. j < nc \<Longrightarrow> col M' j = Inr a \<Longrightarrow> column rows j = a"
    by (simp add: rows(1) column_def)
  have c1: "\<forall>i < 5. \<forall>a. save_source E w m ([''x'', ''z'', ''rho'', ''vp'', ''vs''] ! i) = Inr (Some a)
                  \<longrightarrow> column ?T (i + ioff) = map (fmt E) a"
  proof (intro allI impI)
    fix i :: nat and a assume i: "i < 5" and a: "save_source E w m ([''x'', ''z'', ''rho'', ''vp'', ''vs''] ! i) = Inr (Some a)"
    from i have "(i, [''x'', ''z'', ''rho'', ''vp'', ''vs''] ! i) \<in> set ?ps"
      unfolding ps by (auto simp: less_Suc_eq eval_nat_numeral)
    with M'(3) a have "col M' (i + ioff) = Inr a" by blast
    moreover have "i + ioff < nc" using i nc by simp
    ultimately show "column ?T (i + ioff) = map (fmt E) a" using cm cr by simp
  qed
  have c0: "\<forall>j < ioff. column ?T j = replicate n (fmt E 0)"
  proof (intro allI impI)
    fix j assume j: "j < ioff"
    then have "j \<notin> (\<lambda>p. fst p + ioff) ` set ?ps" by auto
    with M'(4) have "col M' j = col (np_zeros n nc) j" by blast
    moreover have jn: "j < nc" using j nc by simp
    ultimately have "column rows j = replicate n 0"
      by (simp add: rows(1) column_def np_zeros_def map_replicate_const)
    with cm[OF jn] show "column ?T j = replicate n (fmt E 0)" by simp
  qed
  show ?thesis using s l c1 c0 by blast
qed

lemma loadtxt_array_table:
  assumes "2 \<le> length T" "list_all (\<lambda>r. length r = nc) T" "2 \<le> nc"
  shows "loadtxt_array T = Inr (Arr2 nc T)"
proof -
  from assms(2,3) have f: "filter (\<lambda>r. r \<noteq> []) T = T"
    by (auto simp: list_all_iff filter_id_conv)
  from assms(1) obtain r r' rs where T: "T = r # r' # rs"
    by (cases T; cases "tl T") auto
  with assms(2,3) show ?thesis
    unfolding loadtxt_array_def f by (auto simp: T)
qed

lemma load_table:
  assumes "files w f = Some T" "2 \<le> length T" "list_all (\<lambda>r. length r = nc) T"
  shows "nc = 5 \<Longrightarrow> load f w = Inr (fields_of T 0)" and "nc = 6 \<Longrightarrow> load f w = Inr (fields_of T 1)"
  using load_Arr2[OF assms(1) loadtxt_array_table[OF assms(2,3)]] by simp_all

lemma fields_of_get:
  "dict_get (fields_of rows io) ''x'' = Inr [column rows io]"
  "dict_get (fields_of rows io) ''z'' = Inr [column rows (io + 1)]"
  "dict_get (fields_of rows io) ''rho'' = Inr [column rows (io + 2)]"
  "dict_get (fields_of rows io) ''vp'' = Inr [column rows (io + 3)]"
  "dict_get (fields_of rows io) ''vs'' = Inr [column rows (io + 4)]"
  by (simp_all add: dict_get_def fields_of_def column_def)

lemma fields_of_set_vs:
  "dict_set ''vs'' v (fields_of rows io) =
     [(''x'', [column rows io]), (''z'', [column rows (io + 1)]), (''rho'', [column rows (io + 2)]),
      (''vp'', [column rows (io + 3)]), (''vs'', v)]"
  by (simp add: dict_set_def fields_of_def column_def)

lemma save_fields:
  assumes "length s = length rows"
  shows "\<exists>T. save E f (dict_set ''vs'' (s # rest) (fields_of rows io)) ''model'' w
               = (Inr (), w\<lparr>files := (files w)(f \<mapsto> T)\<rparr>)
           \<and> length T = length rows \<and> list_all (\<lambda>r. length r = 6) T
           \<and> column T 0 = replicate (length rows) (fmt E 0)
           \<and> column T 1 = map (fmt E) (column rows io)
           \<and> column T 2 = map (fmt E) (column rows (io + 1))
           \<and> column T 3 = map (fmt E) (column rows (io + 2))
           \<and> column T 4 = map (fmt E) (column rows (io + 3))
           \<and> column T 5 = map (fmt E) s"
proof -
  let ?m = "dict_set ''vs'' (s # rest) (fields_of rows io)"
  let ?n = "length rows"
  have m: "?m = [(''x'', [column rows io]), (''z'', [column rows (io + 1)]), (''rho'', [column rows (io + 2)]),
      (''vp'', [column rows (io + 3)]), (''vs'', s # rest)]" by (rule fields_of_set_vs)
  have al: "save_alloc ?m ''model'' = Inr (1, np_zeros ?n 6)"
    by (rule save_alloc_ok(1)) (simp_all add: m dict_keys_def column_def assms)
  have src: "save_source E w ?m ''x'' = Inr (Some (column rows io))"
    "save_source E w ?m ''z'' = Inr (Some (column rows (io + 1)))"
    "save_source E w ?m ''rho'' = Inr (Some (column rows (io + 2)))"
    "save_source E w ?m ''vp'' = Inr (Some (column rows (io + 3)))"
    "save_source E w ?m ''vs'' = Inr (Some s)"
    unfolding m by (simp_all add: save_source_def dict_keys_def dict_get_def item0_def bindE_def)
  have srcs: "\<forall>k \<in> set [''x'', ''z'', ''rho'', ''vp'', ''vs'']. \<exists>a. save_source E w ?m k = Inr (Some a) \<and> length a = ?n"
    using src assms by (simp add: column_def)
  from save_ok[OF al _ srcs, where f = f] obtain T where
    T: "save E f ?m ''model'' w = (Inr (), w\<lparr>files := (files w)(f \<mapsto> T)\<rparr>)"
      "length T = ?n" "list_all (\<lambda>r. length r = 6) T"
      "\<forall>i < 5. \<forall>a. save_source E w ?m ([''x'', ''z'', ''rho'', ''vp'', ''vs''] ! i) = Inr (Some a)
                  \<longrightarrow> column T (i + 1) = map (fmt E) a"
      "\<forall>j < 1. column T j = replicate ?n (fmt E 0)" by auto
  from T(4)[rule_format, of 0] T(4)[rule_format, of 1] T(4)[rule_format, of 2]
    T(4)[rule_format, of 3] T(4)[rule_format, of 4] src
  have "column T 1 = map (fmt E) (column rows io)"
    "column T 2 = map (fmt E) (column rows (io + 1))"
    "column T 3 = map (fmt E) (column rows (io + 2))"
    "column T 4 = map (fmt E) (column rows (io + 3))"
    "column T 5 = map (fmt E) s" by (simp_all add: eval_nat_numeral)
  with T(1,2,3) T(5) show ?thesis by auto
qed


lemma example_load:
  "load ''kernels/gradient'' example_world = Inr (fields_of example_kernel 0)"
  by (rule load_table(1)[where nc = 5]) (simp_all add: example_world_def example_kernel_def)

section \<open>Smoothing with a zero span\<close>

text \<open>
  C8. For every path and tag, \<open>smooth\<close> with span 0 returns the record that \<open>load\<close>
  gives for \<^verbatim>\<open>path/tag\<close> (or the error of \<open>load\<close>) and leaves the whole world as it
  was: no file is written or renamed, so the kernel file on disk is what it was.
\<close>

theorem smooth_zero_span_noop:
  "smooth E path tag 0 w =
     (case load (path @ ''/'' @ tag) w of
        Inl e \<Rightarrow> (Inl e, w)
      | Inr parts \<Rightarrow> (Inr (Some parts), w))"
  by (simp add: smooth_def split: sum.splits)

theorem smooth_zero_span_noop_witness:
  "smooth example_env ''kernels'' ''gradient'' 0 example_world =
     (Inr (Some [(''x'', [[0, 4, 0, 4]]), (''z'', [[0, 0, 1, 1]]),
                 (''rho'', [[2600, 2600, 2700, 2700]]), (''vp'', [[5800, 5800, 5900, 5900]]),
                 (''vs'', [[-10, 10, 2, -3]])]),
      example_world)"
  using smooth_zero_span_noop [of example_env "''kernels''" "''gradient''" example_world]
  by (simp add: example_load fields_of_def example_kernel_def)

section \<open>Export of the model\<close>

text \<open>
  C9. With worker identity 0, \<open>export_model\<close> copies the model file of the workspace,
  \<^verbatim>\<open>DATA/model_velocity.dat_input\<close> under the solver's path, to the given destination
  (IOError when that file does not exist); with any other worker identity the same call
  returns with the world unchanged, so a change of the world means identity 0.
\<close>

theorem export_model_gated:
  "(getnode E = 0 \<longrightarrow>
      export_model E path w =
        (case files w (join (getpath E) ''DATA/model_velocity.dat_input'') of
           None \<Rightarrow> (Inl IOError, w)
         | Some t \<Rightarrow> (Inr (), w\<lparr>files := (files w)(path \<mapsto> t)\<rparr>)))
   \<and> (getnode E \<noteq> 0 \<longrightarrow> export_model E path w = (Inr (), w))"
  by (simp add: export_model_def unix_cp_def)

theorem export_model_gated_witness:
  "getnode example_env = 0
   \<and> export_model example_env ''output/model_init'' example_world =
       (Inr (), example_world\<lparr>files := (files example_world)(''output/model_init'' \<mapsto> example_model)\<rparr>)
   \<and> getnode (example_env\<lparr>getnode := 3\<rparr>) \<noteq> 0
   \<and> export_model (example_env\<lparr>getnode := 3\<rparr>) ''output/model_init'' example_world =
       (Inr (), example_world)"
  using export_model_gated [of example_env "''output/model_init''" example_world]
    export_model_gated [of "example_env\<lparr>getnode := 3\<rparr>" "''output/model_init''" example_world]
  by (simp add: example_env_def example_world_def join_def)

section \<open>Combination of kernels\<close>

text \<open>
  C2. For every path, \<open>combine\<close> makes one call of the external program
  \<^verbatim>\<open>bin/xsmooth_sem\<close> under the solver's path, without a shell, with exactly two
  arguments after the program: the decimal count of the entries listed under the path, and
  the path. Nothing else happens to the world: beyond the log entry it is the world that
  the external program leaves, and the exit code is dropped.
\<close>

theorem combine_calls_binary_with_count_and_path:
  "combine E path w =
     (let c = \<lparr>argv = [getpath E @ ''/bin/xsmooth_sem'', str (length (unix_ls E path w)), path],
               shell = False, stdout = None\<rparr>;
          r = fst (os_exec E c w);
          w' = (snd (os_exec E c w))\<lparr>procs := procs w @ [(c, r)]\<rparr>
      in (case r of Inl e \<Rightarrow> Inl e | Inr rc \<Rightarrow> Inr (), w'))"
  by (simp add: combine_def subprocess_call_def Let_def split: prod.splits sum.splits)

theorem combine_calls_binary_with_count_and_path_witness:
  "combine example_env ''kernels'' example_world =
     (Inr (), example_world\<lparr>procs :=
        [(\<lparr>argv = [''/scratch/000000/bin/xsmooth_sem'', ''3'', ''kernels''],
           shell = False, stdout = None\<rparr>, Inr 0)]\<rparr>)"
  using combine_calls_binary_with_count_and_path [of example_env "''kernels''" example_world]
  by (simp add: example_env_def example_world_def Let_def digit_def str.simps [of "Suc (Suc (Suc 0))"])

section \<open>Exit codes of the solver binaries\<close>

lemma mpirun_ok:
  assumes "\<forall>c w'. \<exists>rc. fst (os_exec E c w') = Inr rc"
  shows "fst (mpirun E script ''/dev/null'' w) = Inr ()"
    and "map fst (procs (snd (mpirun E script ''/dev/null'' w))) =
           map fst (procs w) @ [\<lparr>argv = [script], shell = True, stdout = Some ''/dev/null''\<rparr>]"
proof -
  let ?c = "\<lparr>argv = [script], shell = True, stdout = Some ''/dev/null''\<rparr>"
  from assms obtain rc where rc: "fst (os_exec E ?c w) = Inr rc" by blast
  obtain r w' where o: "os_exec E ?c w = (r, w')" by (cases "os_exec E ?c w")
  with rc have r: "r = Inr rc" by simp
  show "fst (mpirun E script ''/dev/null'' w) = Inr ()"
    by (simp add: mpirun_def subprocess_call_def open_w_def o r)
  show "map fst (procs (snd (mpirun E script ''/dev/null'' w))) = map fst (procs w) @ [?c]"
    by (simp add: mpirun_def subprocess_call_def open_w_def o r)
qed

text \<open>
  C1, as the code has it. Whenever the two programs can be started at all, \<open>forward\<close>
  and \<open>adjoint\<close> return normally, with no status, whatever exit codes the programs
  give, and the log grows by exactly the call of the mesh generator followed by the call of
  the solver: each runs once, nothing is retried, and a nonzero exit code of the mesh
  generator does not keep the solver from running.
\<close>

theorem forward_adjoint_drop_exit_codes:
  assumes "\<forall>c w'. \<exists>rc. fst (os_exec E c w') = Inr rc"
  shows "fst (forward E w) = Inr ()
       \<and> map fst (procs (snd (forward E w))) = map fst (procs w) @ [mesh_call, solver_call]
       \<and> fst (adjoint E w) = Inr ()
       \<and> map fst (procs (snd (adjoint E w))) = map fst (procs w) @ [mesh_call, solver_call]"
proof -
  have f: "fst (forward E w0) = Inr ()
       \<and> map fst (procs (snd (forward E w0))) = map fst (procs w0) @ [mesh_call, solver_call]" for w0
  proof -
    let ?w2 = "setpar ''SAVE_FORWARD'' ''.true.'' (setpar ''SIMULATION_TYPE'' ''1'' w0)"
    obtain u w3 where m: "mpirun E ''bin/xmeshfem2D'' ''/dev/null'' ?w2 = (u, w3)"
      by (cases "mpirun E ''bin/xmeshfem2D'' ''/dev/null'' ?w2")
    from mpirun_ok[OF assms, of "''bin/xmeshfem2D''" ?w2] m
    have u: "u = Inr ()" and p3: "map fst (procs w3) = map fst (procs w0) @ [mesh_call]"
      by (simp_all add: setpar_def mesh_call_def)
    from mpirun_ok[OF assms, of "''bin/xspecfem2D''" w3] p3
    show ?thesis
      by (simp add: forward_def Let_def m u solver_call_def)
  qed
  have a: "fst (adjoint E w0) = Inr ()
       \<and> map fst (procs (snd (adjoint E w0))) = map fst (procs w0) @ [mesh_call, solver_call]" for w0
  proof -
    let ?w4 = "unix_ln ''traces/adj'' ''SEM'' (unix_rm ''SEM''
                (setpar ''SAVE_FORWARD'' ''.false.'' (setpar ''SIMULATION_TYPE'' ''3'' w0)))"
    obtain u w5 where m: "mpirun E ''bin/xmeshfem2D'' ''/dev/null'' ?w4 = (u, w5)"
      by (cases "mpirun E ''bin/xmeshfem2D'' ''/dev/null'' ?w4")
    from mpirun_ok[OF assms, of "''bin/xmeshfem2D''" ?w4] m
    have u: "u = Inr ()" and p5: "map fst (procs w5) = map fst (procs w0) @ [mesh_call]"
      by (simp_all add: setpar_def unix_rm_def unix_ln_def mesh_call_def)
    from mpirun_ok[OF assms, of "''bin/xspecfem2D''" w5] p5
    show ?thesis
      by (simp add: adjoint_def Let_def m u solver_call_def)
  qed
  from f a show ?thesis by simp
qed

theorem forward_adjoint_drop_exit_codes_witness:
  "fst (forward example_env example_world) = Inr ()
   \<and> map fst (procs (snd (forward example_env example_world))) = [mesh_call, solver_call]
   \<and> fst (adjoint example_env example_world) = Inr ()
   \<and> map fst (procs (snd (adjoint example_env example_world))) = [mesh_call, solver_call]"
proof -
  have h: "\<forall>c w'. \<exists>rc. fst (os_exec example_env c w') = Inr rc"
    by (simp add: example_env_def)
  show ?thesis
    using forward_adjoint_drop_exit_codes [OF h, of example_world]
    by (simp add: example_world_def)
qed

text \<open>
  The claim C1 as stated fails: the mesh generator exits with code 1, the solver is run
  all the same, and \<open>forward\<close> returns normally.
\<close>

theorem forward_nonzero_exit_not_reported:
  "procs (snd (forward example_env example_world)) = [(mesh_call, Inr 1), (solver_call, Inr 0)]
   \<and> fst (forward example_env example_world) = Inr ()"
  by (simp add: forward_def mpirun_def subprocess_call_def open_w_def setpar_def Let_def
        example_env_def example_world_def mesh_call_def solver_call_def)

section \<open>Column counts\<close>

text \<open>
  C7. A file whose rows all have \<open>nc\<close> numbers, \<open>nc\<close> other than 5 and 6, makes
  \<open>load\<close> raise, so no dict is returned; when the array read is two-dimensional the
  exception is the one raised by \<open>load\<close> itself, otherwise it is the IndexError of
  \<^verbatim>\<open>M.shape[1]\<close>. With 5 columns the first data column is column 0, with 6 columns it
  is column 1, behind the identifier.
\<close>

theorem load_column_count:
  assumes "files w f = Some t" "t \<noteq> []" "list_all (\<lambda>r. length r = nc) t"
  shows "(nc \<noteq> 5 \<and> nc \<noteq> 6 \<longrightarrow> (\<exists>e. load f w = Inl e))
       \<and> (nc \<noteq> 5 \<and> nc \<noteq> 6 \<and> 2 \<le> nc \<and> 2 \<le> length t
            \<longrightarrow> load f w = Inl (Exception ''Bad SPECFEM2D model or kernel.''))
       \<and> (nc = 5 \<and> 2 \<le> length t \<longrightarrow> load f w = Inr (fields_of t 0))
       \<and> (nc = 6 \<and> 2 \<le> length t \<longrightarrow> load f w = Inr (fields_of t 1))
       \<and> column_offset 5 = Inr 0 \<and> column_offset 6 = Inr 1"
proof -
  have a: "\<exists>e. load f w = Inl e" if nc: "nc \<noteq> 5" "nc \<noteq> 6"
  proof (cases "load f w")
    case (Inl e)
    then show ?thesis by simp
  next
    case (Inr parts)
    from load_Inr[OF Inr] assms(1) obtain n rows where
      l: "loadtxt_array t = Inr (Arr2 n rows)" and n: "n = 5 \<or> n = 6" by auto
    from loadtxt_array_Arr2[OF l] have r: "rows = filter (\<lambda>r. r \<noteq> []) t" "2 \<le> length rows"
      "list_all (\<lambda>r. length r = n) rows" by blast+
    from r(2) obtain r0 where r0: "r0 \<in> set rows" by (cases rows) auto
    with r(1) have "r0 \<in> set t" by simp
    with assms(3) have "length r0 = nc" by (simp add: list_all_iff)
    moreover from r0 r(3) have "length r0 = n" by (simp add: list_all_iff)
    ultimately show ?thesis using n nc by simp
  qed
  have b: "load f w = Inl (Exception ''Bad SPECFEM2D model or kernel.'')"
    if "nc \<noteq> 5" "nc \<noteq> 6" "2 \<le> nc" "2 \<le> length t"
    using load_Arr2[OF assms(1) loadtxt_array_table[OF that(4) assms(3) that(3)]] that by simp
  from a b load_table[OF assms(1) _ assms(3)] show ?thesis
    by (simp add: column_offset_def)
qed

theorem load_column_count_witness:
  "load ''bad'' (example_world\<lparr>files := [''bad'' \<mapsto> [[0, 0, 1, 1], [1, 0, 1, 1]]]\<rparr>)
     = Inl (Exception ''Bad SPECFEM2D model or kernel.'')
   \<and> load ''kernels/gradient'' example_world = Inr (fields_of example_kernel 0)
   \<and> load ''model_init'' example_world = Inr (fields_of example_model 1)"
  using load_column_count [of "example_world\<lparr>files := [''bad'' \<mapsto> [[0, 0, 1, 1], [1, 0, 1, 1]]]\<rparr>"
      "''bad''" "[[0, 0, 1, 1], [1, 0, 1, 1]]" 4]
    load_column_count [of example_world "''kernels/gradient''" example_kernel 5]
    load_column_count [of example_world "''model_init''" example_model 6]
  by (simp add: example_world_def example_kernel_def example_model_def)

section \<open>Tables of one row\<close>

text \<open>
  C3 at a table of one row and five columns: \<^verbatim>\<open>np.loadtxt\<close> returns a one-dimensional
  array of shape \<open>(5,)\<close>, and \<open>load\<close> raises IndexError at \<^verbatim>\<open>M.shape[1]\<close>, so the
  round trip does not get past its first step.
\<close>

theorem load_one_row_table_raises:
  "load ''kernels/one'' (example_world\<lparr>files := [''kernels/one'' \<mapsto> [[0, 0, 2600, 5800, 3500]]]\<rparr>)
     = Inl IndexError"
  by (simp add: load_def np_loadtxt_def loadtxt_array_def bindE_def shape_at_def)

section \<open>Backfilling from the initial model\<close>




section \<open>Smoothing and clipping\<close>

lemma grid_code_eq:
  assumes "0 \<le> lx" "0 \<le> lz"
  shows "faround (fsqrt (fdiv (real n * lx) lz)) = grid_resolution n lx lz"
proof (cases "lz = 0")
  case True
  then show ?thesis by (simp add: fdiv_def grid_resolution_def)
next
  case False
  with assms have "0 \<le> real n * lx / lz" by simp
  with False show ?thesis by (simp add: fdiv_def grid_resolution_def)
qed

lemma extent_nonneg: "(a :: real list) \<noteq> [] \<Longrightarrow> 0 \<le> Max (set a) - Min (set a)"
proof -
  assume "a \<noteq> []"
  then have "hd a \<in> set a" by simp
  then have "Min (set a) \<le> hd a" "hd a \<le> Max (set a)" by simp_all
  then show ?thesis by linarith
qed

lemma grid_code_lists:
  assumes "x \<noteq> []" "z \<noteq> []"
  shows "faround (fsqrt (fdiv (real n * (Max (set x) - Min (set x))) (Max (set z) - Min (set z))))
           = grid_resolution n (Max (set x) - Min (set x)) (Max (set z) - Min (set z))"
  by (rule grid_code_eq) (rule extent_nonneg, rule assms)+

lemma column_ne: "t \<noteq> [] \<Longrightarrow> column t j \<noteq> []"
  by (simp add: column_def)

lemma column_length: "length (column t j) = length t"
  by (simp add: column_def)

lemma smooth_parts_fields:
  assumes "t \<noteq> []"
  shows "smooth_parts E sp (fields_of t io) =
           bindE (meshsmooth E (column t io) (column t (io + 1)) (column t (io + 4)) sp
                    (grid_resolution (length t)
                       (Max (set (column t io)) - Min (set (column t io)))
                       (Max (set (column t (io + 1))) - Min (set (column t (io + 1)))))
                    (grid_resolution (length t)
                       (Max (set (column t io)) - Min (set (column t io)))
                       (Max (set (column t (io + 1))) - Min (set (column t (io + 1))))))
             (\<lambda>s. Inr (dict_set ''vs'' [s] (fields_of t io)))"
  unfolding smooth_parts_def
  by (simp add: fields_of_get bindE_def item0_def np_max_def np_min_def column_ne [OF assms]
        Let_def column_length grid_code_lists parameters_def)

lemma clip_fields_fields:
  assumes "t \<noteq> []"
  shows "clip_fields thresh parameters (fields_of t io) =
           Inr (dict_set ''vs''
                  [np_clip (column t (io + 4)) (thresh * Min (set (column t (io + 4))))
                     (thresh * Max (set (column t (io + 4))))]
                  (fields_of t io))"
  by (simp add: parameters_def fields_of_get bindE_def item0_def np_max_def np_min_def
        column_ne [OF assms])

lemma load_table_io:
  assumes "files w f = Some t" "2 \<le> length t" "list_all (\<lambda>r. length r = nc) t" "nc = 5 \<or> nc = 6"
  shows "load f w = Inr (fields_of t (nc - 5))"
  using load_table[OF assms(1-3)] assms(4) by auto

lemma rewrite_table:
  assumes f: "files w p = Some t" and s: "length s = length t"
  shows "\<exists>T. (case unix_mv p archive w of
                 (Inl e, w1) \<Rightarrow> (Inl e, w1)
               | (Inr u, w1) \<Rightarrow>
                   (case save E p (dict_set ''vs'' [s] (fields_of t io)) ''model'' w1 of
                      (Inl e, w2) \<Rightarrow> (Inl e, w2)
                    | (Inr u', w2) \<Rightarrow> (Inr None, w2)))
              = (Inr None, rewritten w p archive t T)
           \<and> length T = length t \<and> list_all (\<lambda>r. length r = 6) T
           \<and> column T 0 = replicate (length t) (fmt E 0)
           \<and> column T 1 = map (fmt E) (column t io)
           \<and> column T 2 = map (fmt E) (column t (io + 1))
           \<and> column T 3 = map (fmt E) (column t (io + 2))
           \<and> column T 4 = map (fmt E) (column t (io + 3))
           \<and> column T 5 = map (fmt E) s"
proof -
  let ?w1 = "w\<lparr>files := (files w)(p := None, archive \<mapsto> t)\<rparr>"
  have mv: "unix_mv p archive w = (Inr (), ?w1)"
    by (simp add: unix_mv_def f)
  from save_fields[OF s, of E p "[]" io ?w1] obtain T where
    T: "save E p (dict_set ''vs'' [s] (fields_of t io)) ''model'' ?w1
          = (Inr (), ?w1\<lparr>files := (files ?w1)(p \<mapsto> T)\<rparr>)"
      "length T = length t" "list_all (\<lambda>r. length r = 6) T"
      "column T 0 = replicate (length t) (fmt E 0)"
      "column T 1 = map (fmt E) (column t io)"
      "column T 2 = map (fmt E) (column t (io + 1))"
      "column T 3 = map (fmt E) (column t (io + 2))"
      "column T 4 = map (fmt E) (column t (io + 3))"
      "column T 5 = map (fmt E) s" by blast
  have w: "?w1\<lparr>files := (files ?w1)(p \<mapsto> T)\<rparr> = rewritten w p archive t T"
    by (simp add: rewritten_def)
  have "(case unix_mv p archive w of
                 (Inl e, w1) \<Rightarrow> (Inl e, w1)
               | (Inr u, w1) \<Rightarrow>
                   (case save E p (dict_set ''vs'' [s] (fields_of t io)) ''model'' w1 of
                      (Inl e, w2) \<Rightarrow> (Inl e, w2)
                    | (Inr u', w2) \<Rightarrow> (Inr None, w2)))
              = (Inr None, rewritten w p archive t T)"
    by (simp only: mv T(1) w prod.case sum.case)
  with T(2-9) show ?thesis by blast
qed

lemma smooth_run:
  assumes "files w (path @ ''/'' @ tag) = Some t" "2 \<le> length t"
    "list_all (\<lambda>r. length r = nc) t" "nc = 5 \<or> nc = 6" "sp \<noteq> 0"
  shows "smooth E path tag sp w =
           (case smooth_parts E sp (fields_of t (nc - 5)) of
              Inl e \<Rightarrow> (Inl e, w)
            | Inr parts' \<Rightarrow>
                (case unix_mv (path @ ''/'' @ tag) (path @ ''/'' @ ''_nosmooth'') w of
                   (Inl e, w1) \<Rightarrow> (Inl e, w1)
                 | (Inr u, w1) \<Rightarrow>
                     (case save E (path @ ''/'' @ tag) parts' ''model'' w1 of
                        (Inl e, w2) \<Rightarrow> (Inl e, w2)
                      | (Inr u', w2) \<Rightarrow> (Inr None, w2))))"
  unfolding smooth_def load_table_io[OF assms(1-4)] using assms(5) by simp

lemma clip_run:
  assumes "files w (path @ ''/'' @ tag) = Some t" "2 \<le> length t"
    "list_all (\<lambda>r. length r = nc) t" "nc = 5 \<or> nc = 6" "thresh < 1"
  shows "clip E path tag thresh w =
           (case unix_mv (path @ ''/'' @ tag) (path @ ''/'' @ ''_noclip'') w of
              (Inl e, w1) \<Rightarrow> (Inl e, w1)
            | (Inr u, w1) \<Rightarrow>
                (case save E (path @ ''/'' @ tag)
                        (dict_set ''vs''
                           [np_clip (column t (nc - 5 + 4))
                              (thresh * Min (set (column t (nc - 5 + 4))))
                              (thresh * Max (set (column t (nc - 5 + 4))))]
                           (fields_of t (nc - 5))) ''model'' w1 of
                   (Inl e, w2) \<Rightarrow> (Inl e, w2)
                 | (Inr u', w2) \<Rightarrow> (Inr None, w2)))"
proof -
  from assms(2) have ne: "t \<noteq> []" by auto
  from assms(5) have th: "\<not> 1 \<le> thresh" by simp
  show ?thesis
    by (simp only: clip_def load_table_io[OF assms(1-4)] clip_fields_fields[OF ne] th
          sum.case if_False)
qed

lemma clip_table:
  assumes "files w (path @ ''/'' @ tag) = Some t" "2 \<le> length t"
    "list_all (\<lambda>r. length r = nc) t" "nc = 5 \<or> nc = 6" "thresh < 1"
  shows "\<exists>T. clip E path tag thresh w
               = (Inr None, rewritten w (path @ ''/'' @ tag) (path @ ''/'' @ ''_noclip'') t T)
           \<and> length T = length t \<and> list_all (\<lambda>r. length r = 6) T
           \<and> column T 0 = replicate (length t) (fmt E 0)
           \<and> column T 1 = map (fmt E) (column t (nc - 5))
           \<and> column T 2 = map (fmt E) (column t (nc - 5 + 1))
           \<and> column T 3 = map (fmt E) (column t (nc - 5 + 2))
           \<and> column T 4 = map (fmt E) (column t (nc - 5 + 3))
           \<and> column T 5 = map (fmt E) (np_clip (column t (nc - 5 + 4))
                              (thresh * Min (set (column t (nc - 5 + 4))))
                              (thresh * Max (set (column t (nc - 5 + 4)))))"
  unfolding clip_run[OF assms]
  by (rule rewrite_table[OF assms(1)]) (simp add: np_clip_def column_def)



section \<open>The smoothing grid\<close>

lemma sqrt_16: "sqrt 16 = 4"
  by (rule real_sqrt_unique) simp_all

lemma np_around_4: "np_around 4 = 4"
  by (simp add: np_around_def Let_def)

text \<open>
  C5. For a kernel file of \<open>n\<close> nodes (a table of at least two rows with 5 or 6
  columns) and a nonzero span, \<open>smooth\<close> calls \<open>meshsmooth\<close> once, on the vs field, with
  the grid resolution round(sqrt(n * xExtent / zExtent)) for the x axis and the same value
  for the z axis; the extents are the maximum minus the minimum of the x and of the z
  column, and the ratio is not inverted for the second axis.
\<close>

theorem smooth_grid_resolution:
  fixes t :: "real list list" and nc :: nat
  defines "x \<equiv> column t (nc - 5)"
    and "z \<equiv> column t (nc - 5 + 1)"
    and "vs \<equiv> column t (nc - 5 + 4)"
  defines "r \<equiv> grid_resolution (length t) (Max (set x) - Min (set x)) (Max (set z) - Min (set z))"
  assumes "files w (path @ ''/'' @ tag) = Some t" "2 \<le> length t"
    "list_all (\<lambda>r. length r = nc) t" "nc = 5 \<or> nc = 6" "sp \<noteq> 0"
  shows "smooth E path tag sp w =
           (case meshsmooth E x z vs sp r r of
              Inl e \<Rightarrow> (Inl e, w)
            | Inr s \<Rightarrow>
                (case unix_mv (path @ ''/'' @ tag) (path @ ''/'' @ ''_nosmooth'') w of
                   (Inl e, w1) \<Rightarrow> (Inl e, w1)
                 | (Inr u, w1) \<Rightarrow>
                     (case save E (path @ ''/'' @ tag)
                             (dict_set ''vs'' [s] (fields_of t (nc - 5))) ''model'' w1 of
                        (Inl e, w2) \<Rightarrow> (Inl e, w2)
                      | (Inr u', w2) \<Rightarrow> (Inr None, w2))))"
proof -
  from assms(6) have ne: "t \<noteq> []" by auto
  show ?thesis
    unfolding smooth_run[OF assms(5-9)] smooth_parts_fields[OF ne] x_def z_def vs_def r_def
    by (simp add: bindE_def split: sum.splits)
qed

theorem smooth_grid_resolution_witness:
  "smooth example_env ''kernels'' ''gradient'' 1 example_world =
     (case meshsmooth example_env [0, 4, 0, 4] [0, 0, 1, 1] [-10, 10, 2, -3] 1 (Finite 4) (Finite 4) of
        Inl e \<Rightarrow> (Inl e, example_world)
      | Inr s \<Rightarrow>
          (case unix_mv ''kernels/gradient'' ''kernels/_nosmooth'' example_world of
             (Inl e, w1) \<Rightarrow> (Inl e, w1)
           | (Inr u, w1) \<Rightarrow>
               (case save example_env ''kernels/gradient''
                       (dict_set ''vs'' [s] (fields_of example_kernel 0)) ''model'' w1 of
                  (Inl e, w2) \<Rightarrow> (Inl e, w2)
                | (Inr u', w2) \<Rightarrow> (Inr None, w2))))"
proof -
  have h: "files example_world (''kernels'' @ ''/'' @ ''gradient'') = Some example_kernel"
    "2 \<le> length example_kernel" "list_all (\<lambda>r. length r = 5) example_kernel"
    "(5::nat) = 5 \<or> (5::nat) = 6" "(1::real) \<noteq> 0"
    by (simp_all add: example_world_def example_kernel_def)
  have c: "column example_kernel 0 = [0, 4, 0, 4]" "column example_kernel (Suc 0) = [0, 0, 1, 1]"
    "column example_kernel 4 = [-10, 10, 2, -3]"
    "length example_kernel = 4"
    by (simp_all add: column_def example_kernel_def)
  have g: "grid_resolution 4 4 1 = Finite 4"
    by (simp add: grid_resolution_def sqrt_16 np_around_4)
  show ?thesis
    using smooth_grid_resolution [OF h, of example_env]
    by (simp add: c g cong: sum.case_cong prod.case_cong)
qed

section \<open>Clipping to scaled extrema\<close>

lemma np_clip_bounds:
  assumes "lo \<le> hi" "i < length a"
  shows "lo \<le> np_clip a lo hi ! i" and "np_clip a lo hi ! i \<le> hi"
    and "lo \<le> a ! i \<and> a ! i \<le> hi \<longrightarrow> np_clip a lo hi ! i = a ! i"
  using assms by (auto simp: np_clip_def)

lemma scaled_extrema_ordered:
  assumes "(a :: real list) \<noteq> []" "0 \<le> thresh"
  shows "thresh * Min (set a) \<le> thresh * Max (set a)"
proof -
  from extent_nonneg[OF assms(1)] have "Min (set a) \<le> Max (set a)" by simp
  with assms(2) show ?thesis by (simp add: mult_left_mono)
qed

text \<open>
  C6, as the code has it. For a kernel file (a table of at least two rows with 5 or 6
  columns) and every thresh with 0 \<le> thresh < 1, \<open>clip\<close> archives the file and writes
  a table whose vs column is the rendering of the clamped field: every value of vs is
  clamped into the interval from thresh times the minimum of vs to thresh times the maximum
  of vs, the extrema being those of the vs column itself, and a value already inside the
  interval is unchanged.
\<close>

theorem clip_clamps_to_scaled_extrema:
  fixes t :: "real list list" and nc :: nat and thresh :: real
  defines "vs \<equiv> column t (nc - 5 + 4)"
  defines "lo \<equiv> thresh * Min (set vs)" and "hi \<equiv> thresh * Max (set vs)"
  assumes "files w (path @ ''/'' @ tag) = Some t" "2 \<le> length t"
    "list_all (\<lambda>r. length r = nc) t" "nc = 5 \<or> nc = 6" "0 \<le> thresh" "thresh < 1"
  shows "\<exists>T. clip E path tag thresh w
               = (Inr None, rewritten w (path @ ''/'' @ tag) (path @ ''/'' @ ''_noclip'') t T)
           \<and> column T 5 = map (fmt E) (np_clip vs lo hi)
           \<and> length (np_clip vs lo hi) = length vs
           \<and> (\<forall>i < length vs. lo \<le> np_clip vs lo hi ! i \<and> np_clip vs lo hi ! i \<le> hi
                  \<and> (lo \<le> vs ! i \<and> vs ! i \<le> hi \<longrightarrow> np_clip vs lo hi ! i = vs ! i))"
proof -
  from assms(5) have "vs \<noteq> []" by (auto simp: vs_def column_def)
  from scaled_extrema_ordered[OF this assms(8)] have o: "lo \<le> hi" by (simp add: lo_def hi_def)
  from clip_table[OF assms(4-7) assms(9), of E] obtain T where
    T: "clip E path tag thresh w
          = (Inr None, rewritten w (path @ ''/'' @ tag) (path @ ''/'' @ ''_noclip'') t T)"
      "column T 5 = map (fmt E) (np_clip vs lo hi)"
    unfolding vs_def lo_def hi_def by blast
  have l: "length (np_clip vs lo hi) = length vs" by (simp add: np_clip_def)
  from T l np_clip_bounds[OF o] show ?thesis by blast
qed

theorem clip_clamps_to_scaled_extrema_witness:
  "\<exists>T. clip example_env ''kernels'' ''gradient'' (1 / 2) example_world
          = (Inr None, rewritten example_world ''kernels/gradient'' ''kernels/_noclip'' example_kernel T)
      \<and> column T 5 = [-5, 5, 2, -3]"
proof -
  have h: "files example_world (''kernels'' @ ''/'' @ ''gradient'') = Some example_kernel"
    "2 \<le> length example_kernel" "list_all (\<lambda>r. length r = 5) example_kernel"
    "(5::nat) = 5 \<or> (5::nat) = 6" "(0::real) \<le> 1 / 2" "(1::real) / 2 < 1"
    by (simp_all add: example_world_def example_kernel_def)
  have c: "column example_kernel 4 = [-10, 10, 2, -3]"
    by (simp add: column_def example_kernel_def)
  have f: "fmt example_env = (\<lambda>v. v)" by (simp add: example_env_def)
  show ?thesis
    using clip_clamps_to_scaled_extrema [OF h, of example_env]
    by (simp add: c f np_clip_def) blast
qed

text \<open>
  The claim C6 as stated fails for a negative thresh: with thresh \<open>-1\<close> and the vs values
  1 and 2 the bounds are \<open>-1\<close> and \<open>-2\<close>, no value lies between them, and \<open>clip\<close> writes
  \<open>-2\<close> for both nodes.
\<close>

theorem clip_negative_thresh_leaves_interval:
  "column (the (files (snd (clip example_env ''kernels'' ''two''  (-1)
              (example_world\<lparr>files := [''kernels/two'' \<mapsto> [[0, 0, 1, 1, 1], [1, 0, 1, 1, 2]]]\<rparr>)))
            ''kernels/two'')) 5 = [-2, -2]
   \<and> \<not> ((-1) * Min (set [1, 2]) \<le> (-2 :: real))"
proof -
  let ?t = "[[0, 0, 1, 1, 1], [1, 0, 1, 1, 2 :: real]]"
  let ?w = "example_world\<lparr>files := [''kernels/two'' \<mapsto> ?t]\<rparr>"
  have h: "files ?w (''kernels'' @ ''/'' @ ''two'') = Some ?t" "2 \<le> length ?t"
    "list_all (\<lambda>r. length r = 5) ?t" "(5::nat) = 5 \<or> (5::nat) = 6" "(-1 :: real) < 1"
    by simp_all
  have f: "fmt example_env = (\<lambda>v. v)" by (simp add: example_env_def)
  from clip_table [OF h, of example_env] obtain T where
    T: "clip example_env ''kernels'' ''two'' (-1) ?w
          = (Inr None, rewritten ?w (''kernels'' @ ''/'' @ ''two'') (''kernels'' @ ''/'' @ ''_noclip'') ?t T)"
      "column T 5 = map (fmt example_env) (np_clip (column ?t (5 - 5 + 4))
                              (- 1 * Min (set (column ?t (5 - 5 + 4))))
                              (- 1 * Max (set (column ?t (5 - 5 + 4)))))"
    by blast
  from T(2) have "column T 5 = [-2, -2]"
    by (simp add: f column_def np_clip_def)
  with T(1) show ?thesis by (simp add: rewritten_def)
qed

section \<open>Fields that smoothing and clipping leave alone\<close>



section \<open>The round trip on tables of two or more rows\<close>

lemma save_source_not_None:
  assumes "key \<in> set [''x'', ''z'', ''rho'', ''vp'', ''vs'']"
  shows "save_source E w m key \<noteq> Inr None"
  using assms
  by (auto simp: save_source_def loadbyproc_def bindE_def split: sum.splits)

lemma fields_of_keep_vs:
  "dict_set ''vs'' [column t (io + 4)] (fields_of t io) = fields_of t io"
  by (simp add: dict_set_def fields_of_def column_def)

lemma save_fields_kernel:
  "\<exists>T. save E f (fields_of t io) ''kernel'' w = (Inr (), w\<lparr>files := (files w)(f \<mapsto> T)\<rparr>)
      \<and> length T = length t \<and> list_all (\<lambda>r. length r = 5) T
      \<and> column T 0 = map (fmt E) (column t io)
      \<and> column T 1 = map (fmt E) (column t (io + 1))
      \<and> column T 2 = map (fmt E) (column t (io + 2))
      \<and> column T 3 = map (fmt E) (column t (io + 3))
      \<and> column T 4 = map (fmt E) (column t (io + 4))"
proof -
  let ?m = "fields_of t io"
  have m: "?m = [(''x'', [column t io]), (''z'', [column t (io + 1)]), (''rho'', [column t (io + 2)]),
      (''vp'', [column t (io + 3)]), (''vs'', [column t (io + 4)])]"
    by (simp add: fields_of_def column_def)
  have al: "save_alloc ?m ''kernel'' = Inr (0, np_zeros (length t) 5)"
    by (rule save_alloc_ok(2)) (simp_all add: m dict_keys_def column_def)
  have src: "save_source E w ?m ''x'' = Inr (Some (column t io))"
    "save_source E w ?m ''z'' = Inr (Some (column t (io + 1)))"
    "save_source E w ?m ''rho'' = Inr (Some (column t (io + 2)))"
    "save_source E w ?m ''vp'' = Inr (Some (column t (io + 3)))"
    "save_source E w ?m ''vs'' = Inr (Some (column t (io + 4)))"
    unfolding m by (simp_all add: save_source_def dict_keys_def dict_get_def item0_def bindE_def)
  have srcs: "\<forall>k \<in> set [''x'', ''z'', ''rho'', ''vp'', ''vs''].
                \<exists>a. save_source E w ?m k = Inr (Some a) \<and> length a = length t"
    using src by (simp add: column_def)
  from save_ok[OF al _ srcs, where f = f] obtain T where
    T: "save E f ?m ''kernel'' w = (Inr (), w\<lparr>files := (files w)(f \<mapsto> T)\<rparr>)"
      "length T = length t" "list_all (\<lambda>r. length r = 5) T"
      "\<forall>i < 5. \<forall>a. save_source E w ?m ([''x'', ''z'', ''rho'', ''vp'', ''vs''] ! i) = Inr (Some a)
                  \<longrightarrow> column T (i + 0) = map (fmt E) a" by auto
  from T(4)[rule_format, of 0] T(4)[rule_format, of 1] T(4)[rule_format, of 2]
    T(4)[rule_format, of 3] T(4)[rule_format, of 4] src
  have "column T 0 = map (fmt E) (column t io)"
    "column T 1 = map (fmt E) (column t (io + 1))"
    "column T 2 = map (fmt E) (column t (io + 2))"
    "column T 3 = map (fmt E) (column t (io + 3))"
    "column T 4 = map (fmt E) (column t (io + 4))" by (simp_all add: eval_nat_numeral)
  with T(1,2,3) show ?thesis by auto
qed

lemma load_save_load_kernel:
  assumes "files w f = Some t" "2 \<le> length t" "list_all (\<lambda>r. length r = 5) t"
  shows "\<exists>T. load f w = Inr (fields_of t 0)
           \<and> save E g (fields_of t 0) ''kernel'' w = (Inr (), w\<lparr>files := (files w)(g \<mapsto> T)\<rparr>)
           \<and> load g (w\<lparr>files := (files w)(g \<mapsto> T)\<rparr>) = Inr (fields_of T 0)
           \<and> column T 0 = map (fmt E) (column t 0)
           \<and> column T 1 = map (fmt E) (column t 1)
           \<and> column T 2 = map (fmt E) (column t 2)
           \<and> column T 3 = map (fmt E) (column t 3)
           \<and> column T 4 = map (fmt E) (column t 4)"
proof -
  from save_fields_kernel[of E g t 0 w] obtain T where
    T: "save E g (fields_of t 0) ''kernel'' w = (Inr (), w\<lparr>files := (files w)(g \<mapsto> T)\<rparr>)"
      "length T = length t" "list_all (\<lambda>r. length r = 5) T"
      "column T 0 = map (fmt E) (column t 0)"
      "column T 1 = map (fmt E) (column t 1)"
      "column T 2 = map (fmt E) (column t 2)"
      "column T 3 = map (fmt E) (column t 3)"
      "column T 4 = map (fmt E) (column t 4)" by (auto simp: eval_nat_numeral)
  have l2: "2 \<le> length T" using T(2) assms(2) by simp
  have "load g (w\<lparr>files := (files w)(g \<mapsto> T)\<rparr>) = Inr (fields_of T 0)"
    by (rule load_table(1)[OF _ l2 T(3)]) simp_all
  with load_table(1)[OF assms] T show ?thesis by blast
qed

lemma load_save_load_model:
  assumes "files w f = Some t" "2 \<le> length t" "list_all (\<lambda>r. length r = 6) t"
  shows "\<exists>T. load f w = Inr (fields_of t 1)
           \<and> save E g (fields_of t 1) ''model'' w = (Inr (), w\<lparr>files := (files w)(g \<mapsto> T)\<rparr>)
           \<and> load g (w\<lparr>files := (files w)(g \<mapsto> T)\<rparr>) = Inr (fields_of T 1)
           \<and> column T 0 = replicate (length t) (fmt E 0)
           \<and> column T 1 = map (fmt E) (column t 1)
           \<and> column T 2 = map (fmt E) (column t 2)
           \<and> column T 3 = map (fmt E) (column t 3)
           \<and> column T 4 = map (fmt E) (column t 4)
           \<and> column T 5 = map (fmt E) (column t 5)"
proof -
  have "length (column t 5) = length t" by (simp add: column_def)
  from save_fields[OF this, of E g "[]" 1 w] obtain T where
    T: "save E g (fields_of t 1) ''model'' w = (Inr (), w\<lparr>files := (files w)(g \<mapsto> T)\<rparr>)"
      "length T = length t" "list_all (\<lambda>r. length r = 6) T"
      "column T 0 = replicate (length t) (fmt E 0)"
      "column T 1 = map (fmt E) (column t 1)"
      "column T 2 = map (fmt E) (column t 2)"
      "column T 3 = map (fmt E) (column t 3)"
      "column T 4 = map (fmt E) (column t 4)"
      "column T 5 = map (fmt E) (column t 5)"
    using fields_of_keep_vs[of t 1] by (auto simp: eval_nat_numeral)
  have l2: "2 \<le> length T" using T(2) assms(2) by simp
  have "load g (w\<lparr>files := (files w)(g \<mapsto> T)\<rparr>) = Inr (fields_of T 1)"
    by (rule load_table(2)[OF _ l2 T(3)]) simp_all
  with load_table(2)[OF assms] T show ?thesis by blast
qed


end
